theory Spec2Isabelle
  imports Complex_Main "HOL-Library.Sublist"
begin

section \<open>Subscriber registry\<close>

text \<open>
  The router (\<^verbatim>\<open>spoolman/api/v1/router.py\<close>) imports \<^verbatim>\<open>websocket_manager\<close> from
  \<^verbatim>\<open>spoolman.ws\<close> and calls \<^verbatim>\<open>connect(pool, websocket)\<close> and
  \<^verbatim>\<open>disconnect(pool, websocket)\<close> on it. The module \<^verbatim>\<open>spoolman.ws\<close> itself is not
  among the source files, so the registry behind the manager follows the specification
  (section 4.1).

  A topic key is the tuple of path segments that the router passes as \<^verbatim>\<open>pool\<close>; the
  empty tuple \<^verbatim>\<open>()\<close> is the root. A session is the identity of one \<^verbatim>\<open>WebSocket\<close>
  object.
\<close>

type_synonym topic_key = "string list"

type_synonym session = nat

text \<open>
  Modelled from the spec: the Subscriber Registry of \<^verbatim>\<open>spoolman.ws\<close>, which "maps topic keys
  to the set of live connections subscribed at that key".
\<close>

type_synonym registry = "topic_key \<Rightarrow> session set"

definition empty_registry :: registry where
  "empty_registry = (\<lambda>_. {})"

text \<open>
  Modelled from the spec: \<^verbatim>\<open>subscribe(topic, session)\<close> of the missing registry, "idempotent;
  adds session to the bucket for topic".
\<close>

definition subscribe :: "topic_key \<Rightarrow> session \<Rightarrow> registry \<Rightarrow> registry" where
  "subscribe topic s r = r(topic := insert s (r topic))"

text \<open>
  Modelled from the spec: \<^verbatim>\<open>unsubscribe(topic, session)\<close> of the missing registry, "removes
  the association; no-op if absent".
\<close>

definition unsubscribe :: "topic_key \<Rightarrow> session \<Rightarrow> registry \<Rightarrow> registry" where
  "unsubscribe topic s r = r(topic := r topic - {s})"

text \<open>
  Modelled from the spec: \<^verbatim>\<open>matches(event_topic)\<close> of the missing registry. The algorithm of
  section 4.1: "walk event_topic's segments from length 0 to full length, collecting the
  bucket at each prefix". \<open>walked\<close> is the prefix reached so far, the second list holds the
  segments still ahead.
\<close>

fun matches_walk :: "registry \<Rightarrow> topic_key \<Rightarrow> topic_key \<Rightarrow> session set" where
  "matches_walk r walked [] = r walked"
| "matches_walk r walked (seg # rest) = r walked \<union> matches_walk r (walked @ [seg]) rest"

definition matches :: "registry \<Rightarrow> topic_key \<Rightarrow> session set" where
  "matches r event_topic = matches_walk r [] event_topic"

text \<open>
  Modelled from the spec: \<^verbatim>\<open>websocket_manager.connect(pool, websocket)\<close> and
  \<^verbatim>\<open>websocket_manager.disconnect(pool, websocket)\<close> of the missing module \<^verbatim>\<open>spoolman.ws\<close>. A
  session "registers itself with the Subscriber Registry at the topic derived from the
  request path" and on teardown "unsubscribes from the registry".
\<close>

definition connect :: "topic_key \<Rightarrow> session \<Rightarrow> registry \<Rightarrow> registry" where
  "connect pool websocket r = subscribe pool websocket r"

definition disconnect :: "topic_key \<Rightarrow> session \<Rightarrow> registry \<Rightarrow> registry" where
  "disconnect pool websocket r = unsubscribe pool websocket r"

section \<open>Outbound queues and the dispatcher\<close>

text \<open>
  Modelled from the spec: the Connection Session's bounded FIFO outbound queue (sections 3
  and 4.2) and the Broadcast Dispatcher (section 4.3); neither is among the source files. A
  message is the pair of the event's topic marker and its payload.
\<close>

type_synonym message = "topic_key \<times> string"

record connection_session =
  queue :: "message list"
  capacity :: nat

text \<open>
  Modelled from the spec: \<^verbatim>\<open>enqueue(payload) -> bool\<close>, which "attempts to place payload on
  the bounded outbound queue; returns false (drop, do not block the dispatcher) if the queue
  is full".
\<close>

definition enqueue :: "message \<Rightarrow> connection_session \<Rightarrow> connection_session \<times> bool" where
  "enqueue m c =
     (if length (queue c) < capacity c then (c\<lparr>queue := queue c @ [m]\<rparr>, True)
      else (c, False))"

text \<open>
  Modelled from the spec: \<^verbatim>\<open>publish(event)\<close>, which "looks up matches(event.topic) in the
  registry and calls enqueue on each returned session". The sessions are kept in a store
  indexed by session; the calls on distinct sessions do not touch each other, so the store
  is updated pointwise.
\<close>

definition publish ::
  "registry \<Rightarrow> message \<Rightarrow> (session \<Rightarrow> connection_session) \<Rightarrow> (session \<Rightarrow> connection_session)" where
  "publish r event sessions =
     (\<lambda>i. if i \<in> matches r (fst event) then fst (enqueue event (sessions i)) else sessions i)"

section \<open>The root websocket endpoint\<close>

text \<open>
  The handler \<^verbatim>\<open>notify\<close> (router.py, lines 148 to 163) awaits the transport four times:
  \<^verbatim>\<open>websocket.accept()\<close>, \<^verbatim>\<open>asyncio.sleep(0.5)\<close>, \<^verbatim>\<open>websocket.receive_text()\<close> and
  \<^verbatim>\<open>websocket.send_json(...)\<close>. Each of them either returns or raises; what it does is
  the environment's choice, given to the model as data. The only exception the handler
  tells apart is \<^verbatim>\<open>WebSocketDisconnect\<close>.
\<close>

datatype exn = WebSocketDisconnect | OtherException string

datatype 'a awaited = Returns 'a | Raises exn

text \<open>What the three awaits of one pass through the loop body do, if they are reached.\<close>

record tick =
  sleep_result :: "unit awaited"
  receive_result :: "string awaited"
  send_result :: "unit awaited"

type_synonym json = "(string \<times> string) list"

text \<open>The calls the handler makes, in the order it makes them.\<close>

datatype action =
    Accept session
  | Connect topic_key session
  | Sleep rat
  | ReceiveText session
  | SendJson session json
  | Disconnect topic_key session

record server =
  manager :: registry
  trace :: "action list"

text \<open>
  \<open>Running\<close>: the environment's script is used up and \<^verbatim>\<open>while True\<close> is waiting for the next
  tick (the loop has no exit of its own). \<open>Returned\<close>: the handler returned. \<open>Raised e\<close>: the
  exception \<open>e\<close> left the handler.
\<close>

datatype status = Running | Returned | Raised exn

text \<open>
  One pass through the body of \<^verbatim>\<open>while True\<close> (lines 159 to 161): the calls made and the
  exception raised, if any. \<^verbatim>\<open>if await websocket.receive_text():\<close> tests the received text
  for truth: the empty string is false.
\<close>

definition loop_body :: "session \<Rightarrow> tick \<Rightarrow> action list \<times> exn option" where
  "loop_body websocket t =
     (case sleep_result t of
        Raises e \<Rightarrow> ([Sleep (1 / 2)], Some e)
      | Returns _ \<Rightarrow>
          (case receive_result t of
             Raises e \<Rightarrow> ([Sleep (1 / 2), ReceiveText websocket], Some e)
           | Returns text \<Rightarrow>
               if text \<noteq> [] then
                 (case send_result t of
                    Raises e \<Rightarrow>
                      ([Sleep (1 / 2), ReceiveText websocket,
                        SendJson websocket [(''status'', ''healthy'')]], Some e)
                  | Returns _ \<Rightarrow>
                      ([Sleep (1 / 2), ReceiveText websocket,
                        SendJson websocket [(''status'', ''healthy'')]], None))
               else ([Sleep (1 / 2), ReceiveText websocket], None)))"

text \<open>
  The \<^verbatim>\<open>except WebSocketDisconnect:\<close> clause (lines 162 and 163): it deregisters the
  websocket at the topic \<^verbatim>\<open>()\<close> and the handler returns; any other exception leaves the
  handler.
\<close>

definition except_clause :: "session \<Rightarrow> exn \<Rightarrow> server \<Rightarrow> server \<times> status" where
  "except_clause websocket e s =
     (case e of
        WebSocketDisconnect \<Rightarrow>
          (s\<lparr>manager := disconnect [] websocket (manager s),
             trace := trace s @ [Disconnect [] websocket]\<rparr>, Returned)
      | OtherException name \<Rightarrow> (s, Raised e))"

text \<open>The \<^verbatim>\<open>try: while True: ...\<close> statement (lines 157 to 163), one tick per pass.\<close>

fun notify_loop :: "session \<Rightarrow> tick list \<Rightarrow> server \<Rightarrow> server \<times> status" where
  "notify_loop websocket [] s = (s, Running)"
| "notify_loop websocket (t # ts) s =
     (case loop_body websocket t of
        (acts, None) \<Rightarrow> notify_loop websocket ts (s\<lparr>trace := trace s @ acts\<rparr>)
      | (acts, Some e) \<Rightarrow> except_clause websocket e (s\<lparr>trace := trace s @ acts\<rparr>))"

text \<open>
  The handler (lines 152 to 163): \<^verbatim>\<open>await websocket.accept()\<close>, then
  \<^verbatim>\<open>websocket_manager.connect((), websocket)\<close>, then the loop. An exception of
  \<^verbatim>\<open>accept\<close> is raised outside the \<^verbatim>\<open>try\<close> and leaves the handler.
\<close>

definition notify :: "session \<Rightarrow> unit awaited \<Rightarrow> tick list \<Rightarrow> server \<Rightarrow> server \<times> status" where
  "notify websocket accept_result ticks s =
     (case accept_result of
        Raises e \<Rightarrow> (s\<lparr>trace := trace s @ [Accept websocket]\<rparr>, Raised e)
      | Returns _ \<Rightarrow>
          notify_loop websocket ticks
            (s\<lparr>manager := connect [] websocket (manager s),
               trace := trace s @ [Accept websocket, Connect [] websocket]\<rparr>))"

text \<open>The part of the trace that a run of the handler added to the trace \<open>before\<close>.\<close>

definition added :: "action list \<Rightarrow> server \<Rightarrow> action list" where
  "added before s = drop (length before) (trace s)"

fun is_connect :: "action \<Rightarrow> bool" where
  "is_connect (Connect pool websocket) = True"
| "is_connect _ = False"

fun is_disconnect :: "action \<Rightarrow> bool" where
  "is_disconnect (Disconnect pool websocket) = True"
| "is_disconnect _ = False"

section \<open>Basic authentication\<close>

text \<open>
  The module-level configuration read from \<^verbatim>\<open>spoolman.env\<close> (lines 40 to 42); the module is
  not among the source files, so its three values are parameters.
\<close>

record config =
  basic_auth_activated :: bool
  basic_auth_username :: string
  basic_auth_password :: string

datatype error = HTTPException nat string | TypeError

text \<open>
  A request as the middleware sees it. Header values reach Python decoded as Latin-1, one
  character per byte, which is what \<^typ>\<open>char\<close> holds. \<open>scope\<close> is the kind of the
  connection: a plain HTTP request or a websocket handshake.
\<close>

datatype scope_type = Http | Websocket

record request =
  scope :: scope_type
  headers :: "(string \<times> string) list"

type_synonym bytes = "char list"

definition is_ascii :: "string \<Rightarrow> bool" where
  "is_ascii s = list_all (\<lambda>c. of_char c < (128::nat)) s"

text \<open>\<^verbatim>\<open>str.lower()\<close> on characters below 256: A to Z, and the capital letters of Latin-1.\<close>

definition lower_char :: "char \<Rightarrow> char" where
  "lower_char c =
     (let n = (of_char c :: nat)
      in if (65 \<le> n \<and> n \<le> 90) \<or> (192 \<le> n \<and> n \<le> 222 \<and> n \<noteq> 215)
         then char_of (n + 32) else c)"

definition lower :: "string \<Rightarrow> string" where
  "lower s = map lower_char s"

text \<open>
  \<^verbatim>\<open>request.headers.get(key)\<close>: the first header whose name, as sent, is the key in lower
  case; \<^verbatim>\<open>None\<close> when there is none.
\<close>

definition headers_get :: "(string \<times> string) list \<Rightarrow> string \<Rightarrow> string option" where
  "headers_get hs key = map_of hs (lower key)"

text \<open>Python's \<^verbatim>\<open>a or b\<close> on optional strings: \<^verbatim>\<open>None\<close> and the empty string are false.\<close>

definition py_or :: "string option \<Rightarrow> string option \<Rightarrow> string option" where
  "py_or a b = (case a of None \<Rightarrow> b | Some [] \<Rightarrow> b | Some (c # cs) \<Rightarrow> a)"

text \<open>\<^verbatim>\<open>s.partition(sep)\<close> for a separator of one character.\<close>

definition str_partition :: "char \<Rightarrow> string \<Rightarrow> string \<times> string \<times> string" where
  "str_partition sep s =
     (if sep \<in> set s
      then (takeWhile (\<lambda>c. c \<noteq> sep) s, [sep], tl (dropWhile (\<lambda>c. c \<noteq> sep) s))
      else (s, [], []))"

text \<open>
  \<^verbatim>\<open>get_authorization_scheme_param\<close> of \<^verbatim>\<open>fastapi.security.utils\<close>: the empty pair for a
  missing or empty value, else the value split at its first space.
\<close>

definition get_authorization_scheme_param :: "string option \<Rightarrow> string \<times> string" where
  "get_authorization_scheme_param authorization_header_value =
     (case authorization_header_value of
        None \<Rightarrow> ([], [])
      | Some [] \<Rightarrow> ([], [])
      | Some (c # cs) \<Rightarrow>
          (case str_partition CHR '' '' (c # cs) of (scheme, _, param) \<Rightarrow> (scheme, param)))"

text \<open>\<^verbatim>\<open>bytes.decode("ascii")\<close>: it raises on a byte of 128 or more.\<close>

definition decode_ascii :: "bytes \<Rightarrow> string option" where
  "decode_ascii bs = (if is_ascii bs then Some bs else None)"

text \<open>
  \<^verbatim>\<open>secrets.compare_digest(a, b)\<close> on two strings: it raises \<^verbatim>\<open>TypeError\<close> unless both are
  ASCII, and otherwise tells whether they are equal.
\<close>

definition compare_digest :: "string \<Rightarrow> string \<Rightarrow> error + bool" where
  "compare_digest a b = (if is_ascii a \<and> is_ascii b then Inr (a = b) else Inl TypeError)"

text \<open>
  \<^verbatim>\<open>decode_and_check_basic_auth_or_raise\<close> (lines 44 to 66). \<^verbatim>\<open>b64decode\<close> of the standard
  library is a parameter: \<open>None\<close> stands for any exception it raises.
\<close>

definition decode_and_check_basic_auth_or_raise ::
  "(string \<Rightarrow> bytes option) \<Rightarrow> config \<Rightarrow> string \<Rightarrow> error + unit" where
  "decode_and_check_basic_auth_or_raise b64decode cfg encoded_credentials =
     (case Option.bind (b64decode encoded_credentials) decode_ascii of
        None \<Rightarrow> Inl (HTTPException 401 ''invalid token'')
      | Some decoded_credentials \<Rightarrow>
          (case str_partition CHR '':'' decoded_credentials of
             (username, _, password) \<Rightarrow>
               (case compare_digest username (basic_auth_username cfg) of
                  Inl e \<Rightarrow> Inl e
                | Inr username_is_valid \<Rightarrow>
                    (case compare_digest password (basic_auth_password cfg) of
                       Inl e \<Rightarrow> Inl e
                     | Inr password_is_valid \<Rightarrow>
                         if \<not> username_is_valid \<or> \<not> password_is_valid
                         then Inl (HTTPException 401 ''invalid username/password'')
                         else Inr ()))))"

text \<open>
  The middleware \<^verbatim>\<open>check_auth\<close> (lines 69 to 95). \<open>call_next\<close> is the rest of the
  application; the middleware returns what it returns.
\<close>

definition check_auth ::
  "(string \<Rightarrow> bytes option) \<Rightarrow> config \<Rightarrow> request \<Rightarrow> (request \<Rightarrow> 'r) \<Rightarrow> error + 'r" where
  "check_auth b64decode cfg req call_next =
     (if \<not> basic_auth_activated cfg then Inr (call_next req)
      else
        let auth_header =
          py_or (headers_get (headers req) ''Authorization'')
                (headers_get (headers req) ''authorization'')
        in if basic_auth_activated cfg \<and> auth_header = None
           then Inl (HTTPException 401 ''no auth given'')
           else
             (case get_authorization_scheme_param auth_header of
                (auth_scheme, auth_token) \<Rightarrow>
                  if lower auth_scheme = ''basic'' then
                    (case decode_and_check_basic_auth_or_raise b64decode cfg auth_token of
                       Inl e \<Rightarrow> Inl e
                     | Inr _ \<Rightarrow> Inr (call_next req))
                  else Inl (HTTPException 401 ''invalid authentication method'')))"

text \<open>
  The application. \<^verbatim>\<open>@app.middleware("http")\<close> (line 69) installs \<^verbatim>\<open>check_auth\<close> for
  requests whose scope is \<^verbatim>\<open>http\<close>; \<^verbatim>\<open>@app.websocket("/")\<close> (line 148) installs \<^verbatim>\<open>notify\<close>
  for websocket handshakes on the root path. A handshake is not of scope \<^verbatim>\<open>http\<close>: it goes
  to the handler, which takes the websocket alone and reads no header.
\<close>

datatype 'r served = HttpServed "error + 'r" | WebsocketServed "server \<times> status"

definition app ::
  "(string \<Rightarrow> bytes option) \<Rightarrow> config \<Rightarrow> (request \<Rightarrow> 'r) \<Rightarrow> request \<Rightarrow>
   session \<Rightarrow> unit awaited \<Rightarrow> tick list \<Rightarrow> server \<Rightarrow> 'r served" where
  "app b64decode cfg route req websocket accept_result ticks s =
     (case scope req of
        Http \<Rightarrow> HttpServed (check_auth b64decode cfg req route)
      | Websocket \<Rightarrow> WebsocketServed (notify websocket accept_result ticks s))"

section \<open>Properties of the registry\<close>

lemma matches_walk_iff:
  "s \<in> matches_walk r walked rest \<longleftrightarrow> (\<exists>p. prefix p rest \<and> s \<in> r (walked @ p))"
proof (induction rest arbitrary: walked)
  case Nil
  show ?case by simp
next
  case (Cons seg rest)
  show ?case
  proof
    assume "s \<in> matches_walk r walked (seg # rest)"
    then consider "s \<in> r walked" | "s \<in> matches_walk r (walked @ [seg]) rest"
      by auto
    then show "\<exists>p. prefix p (seg # rest) \<and> s \<in> r (walked @ p)"
    proof cases
      case 1
      then have "prefix [] (seg # rest) \<and> s \<in> r (walked @ [])" by simp
      then show ?thesis by blast
    next
      case 2
      then obtain p where p: "prefix p rest" "s \<in> r ((walked @ [seg]) @ p)"
        using Cons.IH by blast
      then have "prefix (seg # p) (seg # rest) \<and> s \<in> r (walked @ seg # p)" by simp
      then show ?thesis by blast
    qed
  next
    assume "\<exists>p. prefix p (seg # rest) \<and> s \<in> r (walked @ p)"
    then obtain p where p: "prefix p (seg # rest)" "s \<in> r (walked @ p)" by blast
    show "s \<in> matches_walk r walked (seg # rest)"
    proof (cases p)
      case Nil
      with p show ?thesis by simp
    next
      case (Cons a q)
      with p have "a = seg" "prefix q rest" "s \<in> r ((walked @ [seg]) @ q)" by auto
      then have "s \<in> matches_walk r (walked @ [seg]) rest"
        using Cons.IH by blast
      then show ?thesis by simp
    qed
  qed
qed

lemma matches_iff: "s \<in> matches r T2 \<longleftrightarrow> (\<exists>T1. prefix T1 T2 \<and> s \<in> r T1)"
  by (simp add: matches_def matches_walk_iff)

lemma fold_subscribe_bucket:
  "fold (\<lambda>T. subscribe T s) Ts r T = (if T \<in> set Ts then insert s (r T) else r T)"
  by (induction Ts arbitrary: r) (auto simp: subscribe_def)


lemma matches_fold_subscribe_subset:
  "matches (fold (\<lambda>T. subscribe T s) Ts empty_registry) T2 \<subseteq> {s}"
proof
  fix x
  assume "x \<in> matches (fold (\<lambda>T. subscribe T s) Ts empty_registry) T2"
  then obtain T1 where "x \<in> fold (\<lambda>T. subscribe T s) Ts empty_registry T1"
    using matches_iff by blast
  then show "x \<in> {s}"
    by (simp add: fold_subscribe_bucket empty_registry_def split: if_splits)
qed

text \<open>
  Claim C1. A session subscribed at topic key \<open>T1\<close> is returned by \<open>matches\<close> for the
  event topic \<open>T2\<close> exactly when \<open>T1\<close> is a prefix of \<open>T2\<close> (the root and \<open>T2\<close> itself
  included). In any registry, \<open>s\<close> is matched exactly when it sits in the bucket of some
  prefix of \<open>T2\<close>; for a session with the single subscription \<open>T1\<close> this is "\<open>T1\<close> is a
  prefix of \<open>T2\<close>". A session subscribed at any number of levels \<open>Ts\<close> is returned at most
  once: the result has at most one element.
\<close>

theorem matches_iff_prefix:
  "(s \<in> matches r T2 \<longleftrightarrow> (\<exists>T1. prefix T1 T2 \<and> s \<in> r T1))
   \<and> ((\<forall>T. s \<notin> r T) \<longrightarrow> (s \<in> matches (subscribe T1 s r) T2 \<longleftrightarrow> prefix T1 T2))
   \<and> card (matches (fold (\<lambda>T. subscribe T s) Ts empty_registry) T2) \<le> 1"
proof (intro conjI impI)
  show "s \<in> matches r T2 \<longleftrightarrow> (\<exists>T1. prefix T1 T2 \<and> s \<in> r T1)"
    by (rule matches_iff)
next
  assume fresh: "\<forall>T. s \<notin> r T"
  have "s \<in> subscribe T1 s r T \<longleftrightarrow> T = T1" for T
    using fresh by (simp add: subscribe_def)
  then show "s \<in> matches (subscribe T1 s r) T2 \<longleftrightarrow> prefix T1 T2"
    by (simp add: matches_iff)
next
  have "card (matches (fold (\<lambda>T. subscribe T s) Ts empty_registry) T2) \<le> card {s}"
    by (rule card_mono) (simp_all add: matches_fold_subscribe_subset)
  then show "card (matches (fold (\<lambda>T. subscribe T s) Ts empty_registry) T2) \<le> 1"
    by simp
qed

theorem matches_iff_prefix_witness:
  "(1::nat) \<in> matches (subscribe [''spool''] 1 (subscribe [''vendor''] 2 empty_registry))
      [''spool'', ''5'']
   \<and> (1::nat) \<notin> matches (subscribe [''spool''] 1 (subscribe [''vendor''] 2 empty_registry))
      [''vendor'', ''5'']
   \<and> card (matches (fold (\<lambda>T. subscribe T 1) [[], [''spool''], [''spool'', ''5'']]
      empty_registry) [''spool'', ''5'']) \<le> 1"
proof -
  have fresh: "\<forall>T. (1::nat) \<notin> subscribe [''vendor''] 2 empty_registry T"
    by (simp add: subscribe_def empty_registry_def)
  note inst = matches_iff_prefix [where s = 1 and r = "subscribe [''vendor''] 2 empty_registry"
      and ?T1.0 = "[''spool'']" and Ts = "[[], [''spool''], [''spool'', ''5'']]"]
  have a: "(1::nat) \<in> matches (subscribe [''spool''] 1 (subscribe [''vendor''] 2 empty_registry))
      [''spool'', ''5'']"
    using inst [where ?T2.0 = "[''spool'', ''5'']"] fresh by simp
  have b: "(1::nat) \<notin> matches (subscribe [''spool''] 1 (subscribe [''vendor''] 2 empty_registry))
      [''vendor'', ''5'']"
    using inst [where ?T2.0 = "[''vendor'', ''5'']"] fresh by simp
  have c: "card (matches (fold (\<lambda>T. subscribe T 1) [[], [''spool''], [''spool'', ''5'']]
      empty_registry) [''spool'', ''5'']) \<le> 1"
    using inst [where ?T2.0 = "[''spool'', ''5'']"] by blast
  from a b c show ?thesis by blast
qed

text \<open>
  Claim C6, as stated, fails: \<open>subscribe\<close> is idempotent, so when the session is already
  subscribed at the topic, the pair of calls ends with the session removed. Here session 1
  is subscribed at the root before the pair, and is not matched at the root after it.
\<close>

theorem subscribe_unsubscribe_counterexample:
  "matches (unsubscribe [] 1 (subscribe [] 1 (subscribe [] 1 empty_registry))) []
     \<noteq> matches (subscribe [] 1 empty_registry) []"
  by (simp add: matches_def subscribe_def unsubscribe_def empty_registry_def)

text \<open>
  Claim C6, amended. For a session not yet subscribed at \<open>T\<close>, \<open>subscribe\<close> followed by
  \<open>unsubscribe\<close> gives the registry back, hence the same \<open>matches\<close> for every event topic;
  \<open>subscribe\<close> is idempotent; \<open>unsubscribe\<close> of an absent association changes nothing.
\<close>

theorem subscribe_unsubscribe_roundtrip:
  "(s \<notin> r T \<longrightarrow> unsubscribe T s (subscribe T s r) = r
      \<and> (\<forall>T'. matches (unsubscribe T s (subscribe T s r)) T' = matches r T'))
   \<and> subscribe T s (subscribe T s r) = subscribe T s r
   \<and> (s \<notin> r T \<longrightarrow> unsubscribe T s r = r)"
proof (intro conjI impI allI)
  assume absent: "s \<notin> r T"
  then show eq: "unsubscribe T s (subscribe T s r) = r"
    by (auto simp: subscribe_def unsubscribe_def)
  show "matches (unsubscribe T s (subscribe T s r)) T' = matches r T'" for T'
    by (simp only: eq)
next
  show "subscribe T s (subscribe T s r) = subscribe T s r"
    by (simp add: subscribe_def)
next
  assume "s \<notin> r T"
  then show "unsubscribe T s r = r"
    by (auto simp: unsubscribe_def)
qed

theorem subscribe_unsubscribe_roundtrip_witness:
  "unsubscribe [''spool''] 1 (subscribe [''spool''] 1 (subscribe [''spool''] 2 empty_registry))
     = subscribe [''spool''] 2 empty_registry
   \<and> matches (unsubscribe [''spool''] 1
        (subscribe [''spool''] 1 (subscribe [''spool''] 2 empty_registry))) [''spool'', ''5'']
     = {2}
   \<and> unsubscribe [''spool''] 1 (subscribe [''spool''] 2 empty_registry)
     = subscribe [''spool''] 2 empty_registry"
proof -
  have absent: "(1::nat) \<notin> subscribe [''spool''] 2 empty_registry [''spool'']"
    by (simp add: subscribe_def empty_registry_def)
  have m: "matches (subscribe [''spool''] 2 empty_registry) [''spool'', ''5''] = {2}"
    by (simp add: matches_def subscribe_def empty_registry_def)
  show ?thesis
    using subscribe_unsubscribe_roundtrip
      [of 1 "subscribe [''spool''] 2 empty_registry" "[''spool'']"] absent m
    by simp
qed

section \<open>Properties of the root websocket endpoint\<close>

lemma loop_body_actions:
  "\<not> list_ex is_connect (fst (loop_body ws t))" "\<not> list_ex is_disconnect (fst (loop_body ws t))"
  by (auto simp: loop_body_def split: awaited.splits)

lemma notify_loop_facts:
  "notify_loop ws ticks s = (s', st) \<Longrightarrow>
     (\<exists>rest. trace s' = trace s @ rest \<and> \<not> list_ex is_connect rest
        \<and> (list_ex is_disconnect rest \<longleftrightarrow> st = Returned)
        \<and> (st = Returned \<longrightarrow>
             (\<exists>pre. rest = pre @ [Disconnect [] ws])
             \<and> manager s' = disconnect [] ws (manager s))
        \<and> (st \<noteq> Returned \<longrightarrow> manager s' = manager s)
        \<and> st \<noteq> Raised WebSocketDisconnect)"
proof (induction ticks arbitrary: s)
  case Nil
  then show ?case by auto
next
  case (Cons t ts)
  obtain acts r where lb: "loop_body ws t = (acts, r)" by (cases "loop_body ws t")
  have acts: "\<not> list_ex is_connect acts" "\<not> list_ex is_disconnect acts"
    using loop_body_actions [of ws t] lb by simp_all
  show ?case
  proof (cases r)
    case None
    with Cons.prems lb have "notify_loop ws ts (s\<lparr>trace := trace s @ acts\<rparr>) = (s', st)" by simp
    from Cons.IH [OF this] obtain rest where
      "trace s' = trace s @ acts @ rest" "\<not> list_ex is_connect rest"
      "list_ex is_disconnect rest \<longleftrightarrow> st = Returned"
      "st = Returned \<longrightarrow> (\<exists>pre. rest = pre @ [Disconnect [] ws])
         \<and> manager s' = disconnect [] ws (manager s)"
      "st \<noteq> Returned \<longrightarrow> manager s' = manager s"
      "st \<noteq> Raised WebSocketDisconnect"
      by auto
    then show ?thesis using acts
      by (intro exI [of _ "acts @ rest"]) auto
  next
    case (Some e)
    with Cons.prems lb have "except_clause ws e (s\<lparr>trace := trace s @ acts\<rparr>) = (s', st)" by simp
    then show ?thesis using acts
      by (cases e) (auto simp: except_clause_def)
  qed
qed

lemma notify_loop_quiet:
  "\<forall>t\<in>set quiet. snd (loop_body ws t) = None \<Longrightarrow>
   notify_loop ws (quiet @ ts) s =
     notify_loop ws ts (s\<lparr>trace := trace s @ concat (map (\<lambda>t. fst (loop_body ws t)) quiet)\<rparr>)"
proof (induction quiet arbitrary: s)
  case Nil
  show ?case by simp
next
  case (Cons t quiet)
  obtain acts where lb: "loop_body ws t = (acts, None)"
    using Cons.prems by (cases "loop_body ws t") auto
  have rest: "\<forall>t\<in>set quiet. snd (loop_body ws t) = None"
    using Cons.prems by simp
  show ?case
    using Cons.IH [OF rest, of "s\<lparr>trace := trace s @ acts\<rparr>"] lb by simp
qed

lemma notify_loop_status:
  assumes "\<forall>t\<in>set quiet. snd (loop_body ws t) = None"
  shows "snd (notify_loop ws quiet s) = Running"
    and "snd (loop_body ws t) = Some e \<Longrightarrow>
      snd (notify_loop ws (quiet @ t # post) s) =
        (if e = WebSocketDisconnect then Returned else Raised e)"
proof -
  show "snd (notify_loop ws quiet s) = Running"
    using notify_loop_quiet [OF assms, of "[]" s] by simp
next
  assume "snd (loop_body ws t) = Some e"
  then have "loop_body ws t = (fst (loop_body ws t), Some e)"
    by (metis prod.collapse)
  then show "snd (notify_loop ws (quiet @ t # post) s) =
        (if e = WebSocketDisconnect then Returned else Raised e)"
    using notify_loop_quiet [OF assms, of "t # post" s]
    by (cases e) (simp_all add: except_clause_def split: prod.splits)
qed

lemma notify_accepted:
  "notify ws (Returns u) ticks s =
     notify_loop ws ticks
       (s\<lparr>manager := subscribe [] ws (manager s), trace := trace s @ [Accept ws, Connect [] ws]\<rparr>)"
  by (simp add: notify_def connect_def)

lemma notify_facts:
  assumes "notify ws (Returns u) ticks s = (s', st)"
  shows "\<exists>rest. added (trace s) s' = Accept ws # Connect [] ws # rest
        \<and> \<not> list_ex is_connect rest
        \<and> (list_ex is_disconnect rest \<longleftrightarrow> st = Returned)
        \<and> (st = Returned \<longrightarrow> (\<exists>pre. rest = pre @ [Disconnect [] ws]))"
    and "st = Returned \<Longrightarrow> manager s' = unsubscribe [] ws (subscribe [] ws (manager s))"
    and "st \<noteq> Returned \<Longrightarrow> manager s' = subscribe [] ws (manager s)"
    and "st \<noteq> Raised WebSocketDisconnect"
proof -
  let ?s0 = "s\<lparr>manager := subscribe [] ws (manager s), trace := trace s @ [Accept ws, Connect [] ws]\<rparr>"
  have run: "notify_loop ws ticks ?s0 = (s', st)"
    using assms by (simp add: notify_accepted)
  from notify_loop_facts [OF run] obtain rest where rest:
    "trace s' = trace ?s0 @ rest" "\<not> list_ex is_connect rest"
    "list_ex is_disconnect rest \<longleftrightarrow> st = Returned"
    "st = Returned \<longrightarrow> (\<exists>pre. rest = pre @ [Disconnect [] ws])
       \<and> manager s' = disconnect [] ws (manager ?s0)"
    "st \<noteq> Returned \<longrightarrow> manager s' = manager ?s0"
    "st \<noteq> Raised WebSocketDisconnect"
    by blast
  from rest(1) have "added (trace s) s' = Accept ws # Connect [] ws # rest"
    by (simp add: added_def)
  with rest show "\<exists>rest. added (trace s) s' = Accept ws # Connect [] ws # rest
        \<and> \<not> list_ex is_connect rest
        \<and> (list_ex is_disconnect rest \<longleftrightarrow> st = Returned)
        \<and> (st = Returned \<longrightarrow> (\<exists>pre. rest = pre @ [Disconnect [] ws]))"
    by blast
  from rest show "st = Returned \<Longrightarrow> manager s' = unsubscribe [] ws (subscribe [] ws (manager s))"
    by (simp add: disconnect_def)
  from rest show "st \<noteq> Returned \<Longrightarrow> manager s' = subscribe [] ws (manager s)"
    by simp
  from rest show "st \<noteq> Raised WebSocketDisconnect" by simp
qed

text \<open>
  What a pass raises, read off the three awaits themselves: nothing when the sleep and the
  receive return and the send, if there is one, returns; otherwise the exception of the
  first await that raises.
\<close>

lemma loop_body_returns:
  assumes "sleep_result q = Returns ()" and "receive_result q = Returns text"
    and "text = [] \<or> send_result q = Returns ()"
  shows "snd (loop_body ws q) = None"
  using assms by (auto simp: loop_body_def)

lemma loop_body_raises:
  assumes "sleep_result t = Raises e
      \<or> sleep_result t = Returns () \<and> receive_result t = Raises e
      \<or> sleep_result t = Returns ()
          \<and> (\<exists>text. receive_result t = Returns text \<and> text \<noteq> [] \<and> send_result t = Raises e)"
  shows "snd (loop_body ws t) = Some e"
  using assms by (auto simp: loop_body_def)

lemma quiet_passes:
  assumes "\<forall>q\<in>set quiet. sleep_result q = Returns ()
      \<and> (\<exists>text. receive_result q = Returns text \<and> (text = [] \<or> send_result q = Returns ()))"
  shows "\<forall>q\<in>set quiet. snd (loop_body ws q) = None"
  using assms loop_body_returns by blast

text \<open>
  Claim C2. A websocket whose \<^verbatim>\<open>accept\<close> raises is never handed to the manager: the
  registry is unchanged, the exception leaves the handler and \<^verbatim>\<open>accept\<close> is the only call
  made. When \<^verbatim>\<open>accept\<close> returns, the next call is \<^verbatim>\<open>connect((), websocket)\<close>, the
  registration at the root topic key, and no other \<^verbatim>\<open>connect\<close> follows; until the handler
  returns, the websocket sits in the root bucket and is matched by every event topic.
\<close>

theorem notify_registers_after_accept:
  "(manager (fst (notify ws (Raises e) ticks s)) = manager s
      \<and> snd (notify ws (Raises e) ticks s) = Raised e
      \<and> added (trace s) (fst (notify ws (Raises e) ticks s)) = [Accept ws])
   \<and> (\<exists>rest. added (trace s) (fst (notify ws (Returns ()) ticks s))
                = Accept ws # Connect [] ws # rest \<and> \<not> list_ex is_connect rest)
   \<and> (snd (notify ws (Returns ()) ticks s) \<noteq> Returned \<longrightarrow>
        manager (fst (notify ws (Returns ()) ticks s)) = subscribe [] ws (manager s)
        \<and> ws \<in> manager (fst (notify ws (Returns ()) ticks s)) []
        \<and> (\<forall>T. ws \<in> matches (manager (fst (notify ws (Returns ()) ticks s))) T))"
proof -
  have refused: "manager (fst (notify ws (Raises e) ticks s)) = manager s
      \<and> snd (notify ws (Raises e) ticks s) = Raised e
      \<and> added (trace s) (fst (notify ws (Raises e) ticks s)) = [Accept ws]"
    by (simp add: notify_def added_def)
  obtain s' st where run: "notify ws (Returns ()) ticks s = (s', st)"
    by (cases "notify ws (Returns ()) ticks s")
  from notify_facts(1) [OF run]
  have order: "\<exists>rest. added (trace s) s' = Accept ws # Connect [] ws # rest
      \<and> \<not> list_ex is_connect rest"
    by blast
  have registered: "manager s' = subscribe [] ws (manager s) \<and> ws \<in> manager s' []
      \<and> (\<forall>T. ws \<in> matches (manager s') T)" if "st \<noteq> Returned"
  proof -
    have m: "manager s' = subscribe [] ws (manager s)"
      using notify_facts(3) [OF run that] .
    then have root: "ws \<in> manager s' []"
      by (simp add: subscribe_def)
    have "ws \<in> matches (manager s') T" for T
      unfolding matches_iff using root by (intro exI [of _ "[]"]) simp
    with m root show ?thesis by blast
  qed
  from refused order registered show ?thesis
    unfolding run fst_conv snd_conv by blast
qed


theorem notify_registers_after_accept_witness:
  "manager (fst (notify 1 (Raises (OtherException ''RuntimeError'')) []
       \<lparr>manager = empty_registry, trace = []\<rparr>)) = empty_registry
   \<and> 1 \<in> manager (fst (notify 1 (Returns ())
       [\<lparr>sleep_result = Returns (), receive_result = Returns ''ping'', send_result = Returns ()\<rparr>]
       \<lparr>manager = empty_registry, trace = []\<rparr>)) []"
proof -
  define s where "s = \<lparr>manager = empty_registry, trace = []\<rparr>"
  define ticks where "ticks =
    [\<lparr>sleep_result = Returns (), receive_result = Returns ''ping'', send_result = Returns ()\<rparr>]"
  have st: "snd (notify 1 (Returns ()) ticks s) \<noteq> Returned"
    by (simp add: ticks_def notify_def loop_body_def)
  have m: "manager s = empty_registry"
    by (simp add: s_def)
  have a: "manager (fst (notify 1 (Raises (OtherException ''RuntimeError'')) [] s))
      = empty_registry"
    using notify_registers_after_accept [of 1 "OtherException ''RuntimeError''" "[]" s] m
    by simp
  have b: "1 \<in> manager (fst (notify 1 (Returns ()) ticks s)) []"
    using notify_registers_after_accept [of 1 "OtherException ''RuntimeError''" ticks s] st
    by blast
  from a b show ?thesis
    unfolding s_def ticks_def by blast
qed

text \<open>
  Claim C4. A \<^verbatim>\<open>WebSocketDisconnect\<close> raised by any await of the loop (the sleep, the
  receive, or the send that answers a non-empty text), after any number of passes in which
  every await returned, makes the handler return; its last call is then
  \<^verbatim>\<open>disconnect((), websocket)\<close>, with the same topic key \<^verbatim>\<open>()\<close> and the same websocket as
  in its \<^verbatim>\<open>connect\<close>, and the websocket is gone from the root bucket. Whenever the handler
  returns, it has deregistered in this way.
\<close>

theorem notify_disconnect_same_topic:
  "((\<forall>q\<in>set quiet. sleep_result q = Returns ()
        \<and> (\<exists>text. receive_result q = Returns text
              \<and> (text = [] \<or> send_result q = Returns ())))
      \<and> (sleep_result t = Raises WebSocketDisconnect
          \<or> sleep_result t = Returns () \<and> receive_result t = Raises WebSocketDisconnect
          \<or> sleep_result t = Returns ()
              \<and> (\<exists>text. receive_result t = Returns text \<and> text \<noteq> []
                    \<and> send_result t = Raises WebSocketDisconnect)) \<longrightarrow>
      snd (notify ws (Returns ()) (quiet @ t # post) s) = Returned
      \<and> (\<exists>mid. added (trace s) (fst (notify ws (Returns ()) (quiet @ t # post) s))
               = Accept ws # Connect [] ws # mid @ [Disconnect [] ws])
      \<and> manager (fst (notify ws (Returns ()) (quiet @ t # post) s))
          = unsubscribe [] ws (subscribe [] ws (manager s))
      \<and> ws \<notin> manager (fst (notify ws (Returns ()) (quiet @ t # post) s)) [])
   \<and> (snd (notify ws (Returns ()) ticks s) = Returned \<longrightarrow>
      (\<exists>mid. added (trace s) (fst (notify ws (Returns ()) ticks s))
               = Accept ws # Connect [] ws # mid @ [Disconnect [] ws])
      \<and> manager (fst (notify ws (Returns ()) ticks s))
          = unsubscribe [] ws (subscribe [] ws (manager s))
      \<and> ws \<notin> manager (fst (notify ws (Returns ()) ticks s)) [])
   \<and> ((\<forall>q\<in>set quiet. snd (loop_body ws q) = None)
        \<and> snd (loop_body ws t) = Some WebSocketDisconnect \<longrightarrow>
      snd (notify ws (Returns ()) (quiet @ t # post) s) = Returned)"
proof -
  have closed: "(\<exists>mid. added (trace s) (fst (notify ws (Returns ()) ts s))
               = Accept ws # Connect [] ws # mid @ [Disconnect [] ws])
      \<and> manager (fst (notify ws (Returns ()) ts s))
          = unsubscribe [] ws (subscribe [] ws (manager s))
      \<and> ws \<notin> manager (fst (notify ws (Returns ()) ts s)) []"
    if ret: "snd (notify ws (Returns ()) ts s) = Returned" for ts
  proof -
    obtain s' st where run: "notify ws (Returns ()) ts s = (s', st)"
      by (cases "notify ws (Returns ()) ts s")
    with ret have st: "st = Returned" by simp
    from notify_facts(1) [OF run] st
    have "\<exists>mid. added (trace s) s' = Accept ws # Connect [] ws # mid @ [Disconnect [] ws]"
      by auto
    moreover have m: "manager s' = unsubscribe [] ws (subscribe [] ws (manager s))"
      using notify_facts(2) [OF run st] .
    moreover have "ws \<notin> manager s' []"
      by (simp add: m unsubscribe_def)
    ultimately show ?thesis
      unfolding run fst_conv by blast
  qed
  have detected: "snd (notify ws (Returns ()) (quiet @ t # post) s) = Returned"
    if "\<forall>q\<in>set quiet. snd (loop_body ws q) = None"
      and "snd (loop_body ws t) = Some WebSocketDisconnect"
    using notify_loop_status(2) [OF that] by (simp add: notify_accepted)
  have awaited: "snd (notify ws (Returns ()) (quiet @ t # post) s) = Returned"
    if q: "\<forall>q\<in>set quiet. sleep_result q = Returns ()
        \<and> (\<exists>text. receive_result q = Returns text
              \<and> (text = [] \<or> send_result q = Returns ()))"
      and r: "sleep_result t = Raises WebSocketDisconnect
          \<or> sleep_result t = Returns () \<and> receive_result t = Raises WebSocketDisconnect
          \<or> sleep_result t = Returns ()
              \<and> (\<exists>text. receive_result t = Returns text \<and> text \<noteq> []
                    \<and> send_result t = Raises WebSocketDisconnect)"
    using detected [OF quiet_passes [OF q] loop_body_raises [OF r]] .
  from closed detected awaited show ?thesis
    by (intro conjI impI) blast+
qed

theorem notify_disconnect_same_topic_witness:
  "added [] (fst (notify 1 (Returns ())
       [\<lparr>sleep_result = Returns (), receive_result = Returns ''ping'', send_result = Returns ()\<rparr>,
        \<lparr>sleep_result = Returns (), receive_result = Raises WebSocketDisconnect,
          send_result = Returns ()\<rparr>]
       \<lparr>manager = empty_registry, trace = []\<rparr>))
     = [Accept 1, Connect [] 1, Sleep (1 / 2), ReceiveText 1,
        SendJson 1 [(''status'', ''healthy'')], Sleep (1 / 2), ReceiveText 1, Disconnect [] 1]
   \<and> 1 \<notin> manager (fst (notify 1 (Returns ())
       [\<lparr>sleep_result = Returns (), receive_result = Returns ''ping'', send_result = Returns ()\<rparr>,
        \<lparr>sleep_result = Returns (), receive_result = Raises WebSocketDisconnect,
          send_result = Returns ()\<rparr>]
       \<lparr>manager = empty_registry, trace = []\<rparr>)) []
   \<and> snd (notify 1 (Returns ())
       [\<lparr>sleep_result = Returns (), receive_result = Returns '''', send_result = Returns ()\<rparr>,
        \<lparr>sleep_result = Returns (), receive_result = Returns ''ping'',
          send_result = Raises WebSocketDisconnect\<rparr>]
       \<lparr>manager = empty_registry, trace = []\<rparr>) = Returned
   \<and> 1 \<notin> manager (fst (notify 1 (Returns ())
       [\<lparr>sleep_result = Returns (), receive_result = Returns '''', send_result = Returns ()\<rparr>,
        \<lparr>sleep_result = Returns (), receive_result = Returns ''ping'',
          send_result = Raises WebSocketDisconnect\<rparr>]
       \<lparr>manager = empty_registry, trace = []\<rparr>)) []
   \<and> snd (notify 1 (Returns ())
       [\<lparr>sleep_result = Raises WebSocketDisconnect, receive_result = Returns ''ping'',
          send_result = Returns ()\<rparr>]
       \<lparr>manager = empty_registry, trace = []\<rparr>) = Returned"
proof -
  define s where "s = \<lparr>manager = empty_registry, trace = []\<rparr>"
  define q where "q =
    \<lparr>sleep_result = Returns (), receive_result = Returns ''ping'', send_result = Returns ()\<rparr>"
  define q0 where "q0 =
    \<lparr>sleep_result = Returns (), receive_result = Returns '''', send_result = Returns ()\<rparr>"
  define tr where "tr =
    \<lparr>sleep_result = Returns (), receive_result = Raises WebSocketDisconnect,
      send_result = Returns ()\<rparr>"
  define tsend where "tsend =
    \<lparr>sleep_result = Returns (), receive_result = Returns ''ping'',
      send_result = Raises WebSocketDisconnect\<rparr>"
  define tsleep where "tsleep =
    \<lparr>sleep_result = Raises WebSocketDisconnect, receive_result = Returns ''ping'',
      send_result = Returns ()\<rparr>"
  have quiet: "\<forall>x\<in>set [q]. sleep_result x = Returns ()
      \<and> (\<exists>text. receive_result x = Returns text \<and> (text = [] \<or> send_result x = Returns ()))"
    by (simp add: q_def)
  have quiet0: "\<forall>x\<in>set [q0]. sleep_result x = Returns ()
      \<and> (\<exists>text. receive_result x = Returns text \<and> (text = [] \<or> send_result x = Returns ()))"
    by (simp add: q0_def)
  have none: "\<forall>x\<in>set ([]::tick list). sleep_result x = Returns ()
      \<and> (\<exists>text. receive_result x = Returns text \<and> (text = [] \<or> send_result x = Returns ()))"
    by simp
  have r1: "sleep_result tr = Returns () \<and> receive_result tr = Raises WebSocketDisconnect"
    by (simp add: tr_def)
  have r2: "sleep_result tsend = Returns ()
      \<and> (\<exists>text. receive_result tsend = Returns text \<and> text \<noteq> []
            \<and> send_result tsend = Raises WebSocketDisconnect)"
    by (simp add: tsend_def)
  have r3: "sleep_result tsleep = Raises WebSocketDisconnect"
    by (simp add: tsleep_def)
  have gone1: "1 \<notin> manager (fst (notify 1 (Returns ()) ([q] @ tr # []) s)) []"
    using notify_disconnect_same_topic [of "[q]" tr 1 "[]" s] quiet r1 by blast
  have st2: "snd (notify 1 (Returns ()) ([q0] @ tsend # []) s) = Returned
      \<and> 1 \<notin> manager (fst (notify 1 (Returns ()) ([q0] @ tsend # []) s)) []"
    using notify_disconnect_same_topic [of "[q0]" tsend 1 "[]" s] quiet0 r2 by blast
  have st3: "snd (notify 1 (Returns ()) ([] @ tsleep # []) s) = Returned"
    using notify_disconnect_same_topic [of "[]" tsleep 1 "[]" s] none r3 by blast
  have calls: "added [] (fst (notify 1 (Returns ()) [q, tr] s))
     = [Accept 1, Connect [] 1, Sleep (1 / 2), ReceiveText 1,
        SendJson 1 [(''status'', ''healthy'')], Sleep (1 / 2), ReceiveText 1, Disconnect [] 1]"
    by (simp add: s_def q_def tr_def notify_def loop_body_def except_clause_def added_def)
  from calls gone1 st2 st3 show ?thesis
    unfolding s_def q_def q0_def tr_def tsend_def tsleep_def by simp
qed

text \<open>
  Claim C10. After any number of passes in which every await returned, an exception \<open>e\<close>
  raised by the sleep, by the receive, or by the send that answers a non-empty text ends
  the handler: it returns when \<open>e\<close> is \<^verbatim>\<open>WebSocketDisconnect\<close>, and otherwise \<open>e\<close> leaves the
  handler, no \<^verbatim>\<open>disconnect\<close> was called, the registry is the one \<^verbatim>\<open>connect\<close> made and the
  websocket is still in the root bucket. While every await returns, the loop keeps
  running. In every run, \<^verbatim>\<open>disconnect\<close> is called exactly when the handler returns, and an
  exception that leaves the handler is never \<^verbatim>\<open>WebSocketDisconnect\<close>.
\<close>

theorem notify_disconnect_only_on_WebSocketDisconnect:
  "((\<forall>q\<in>set quiet. sleep_result q = Returns ()
        \<and> (\<exists>text. receive_result q = Returns text
              \<and> (text = [] \<or> send_result q = Returns ())))
      \<and> (sleep_result t = Raises e
          \<or> sleep_result t = Returns () \<and> receive_result t = Raises e
          \<or> sleep_result t = Returns ()
              \<and> (\<exists>text. receive_result t = Returns text \<and> text \<noteq> []
                    \<and> send_result t = Raises e)) \<longrightarrow>
      snd (notify ws (Returns ()) (quiet @ t # post) s)
        = (if e = WebSocketDisconnect then Returned else Raised e)
      \<and> (e \<noteq> WebSocketDisconnect \<longrightarrow>
           manager (fst (notify ws (Returns ()) (quiet @ t # post) s))
             = subscribe [] ws (manager s)
           \<and> ws \<in> manager (fst (notify ws (Returns ()) (quiet @ t # post) s)) []
           \<and> \<not> list_ex is_disconnect
                 (added (trace s) (fst (notify ws (Returns ()) (quiet @ t # post) s)))))
   \<and> ((\<forall>q\<in>set quiet. sleep_result q = Returns ()
        \<and> (\<exists>text. receive_result q = Returns text
              \<and> (text = [] \<or> send_result q = Returns ()))) \<longrightarrow>
        snd (notify ws (Returns ()) quiet s) = Running)
   \<and> (list_ex is_disconnect (added (trace s) (fst (notify ws (Returns ()) ticks s)))
      \<longleftrightarrow> snd (notify ws (Returns ()) ticks s) = Returned)
   \<and> ((\<forall>q\<in>set quiet. snd (loop_body ws q) = None) \<and> snd (loop_body ws t) = Some e \<longrightarrow>
        snd (notify ws (Returns ()) (quiet @ t # post) s)
          = (if e = WebSocketDisconnect then Returned else Raised e))
   \<and> ((\<forall>q\<in>set quiet. snd (loop_body ws q) = None) \<longrightarrow>
        snd (notify ws (Returns ()) quiet s) = Running)
   \<and> (snd (notify ws (Returns ()) ticks s) = Raised e \<longrightarrow>
        e \<noteq> WebSocketDisconnect
        \<and> manager (fst (notify ws (Returns ()) ticks s)) = subscribe [] ws (manager s)
        \<and> ws \<in> manager (fst (notify ws (Returns ()) ticks s)) [])"
proof -
  have calls: "list_ex is_disconnect (added (trace s) (fst (notify ws (Returns ()) ts s)))
      \<longleftrightarrow> snd (notify ws (Returns ()) ts s) = Returned" for ts
  proof -
    obtain s' st where run: "notify ws (Returns ()) ts s = (s', st)"
      by (cases "notify ws (Returns ()) ts s")
    from notify_facts(1) [OF run] show ?thesis
      unfolding run fst_conv snd_conv by auto
  qed
  have left: "x \<noteq> WebSocketDisconnect
      \<and> manager (fst (notify ws (Returns ()) ts s)) = subscribe [] ws (manager s)
      \<and> ws \<in> manager (fst (notify ws (Returns ()) ts s)) []"
    if raised: "snd (notify ws (Returns ()) ts s) = Raised x" for ts x
  proof -
    obtain s' st where run: "notify ws (Returns ()) ts s = (s', st)"
      by (cases "notify ws (Returns ()) ts s")
    with raised have st: "st = Raised x" by simp
    have "x \<noteq> WebSocketDisconnect"
      using notify_facts(4) [OF run] st by blast
    moreover have m: "manager s' = subscribe [] ws (manager s)"
      using notify_facts(3) [OF run] st by simp
    moreover have "ws \<in> manager s' []"
      by (simp add: m subscribe_def)
    ultimately show ?thesis
      unfolding run fst_conv by blast
  qed
  have first: "snd (notify ws (Returns ()) (quiet @ t # post) s)
      = (if e = WebSocketDisconnect then Returned else Raised e)"
    if "\<forall>q\<in>set quiet. snd (loop_body ws q) = None" and "snd (loop_body ws t) = Some e"
    using notify_loop_status(2) [OF that] by (simp add: notify_accepted)
  have running: "snd (notify ws (Returns ()) quiet s) = Running"
    if "\<forall>q\<in>set quiet. snd (loop_body ws q) = None"
    using notify_loop_status(1) [OF that] by (simp add: notify_accepted)
  have running_awaits: "snd (notify ws (Returns ()) quiet s) = Running"
    if q: "\<forall>q\<in>set quiet. sleep_result q = Returns ()
        \<and> (\<exists>text. receive_result q = Returns text
              \<and> (text = [] \<or> send_result q = Returns ()))"
    using running [OF quiet_passes [OF q]] .
  have awaits: "snd (notify ws (Returns ()) (quiet @ t # post) s)
        = (if e = WebSocketDisconnect then Returned else Raised e)
      \<and> (e \<noteq> WebSocketDisconnect \<longrightarrow>
           manager (fst (notify ws (Returns ()) (quiet @ t # post) s))
             = subscribe [] ws (manager s)
           \<and> ws \<in> manager (fst (notify ws (Returns ()) (quiet @ t # post) s)) []
           \<and> \<not> list_ex is_disconnect
                 (added (trace s) (fst (notify ws (Returns ()) (quiet @ t # post) s))))"
    if q: "\<forall>q\<in>set quiet. sleep_result q = Returns ()
        \<and> (\<exists>text. receive_result q = Returns text
              \<and> (text = [] \<or> send_result q = Returns ()))"
      and r: "sleep_result t = Raises e
          \<or> sleep_result t = Returns () \<and> receive_result t = Raises e
          \<or> sleep_result t = Returns ()
              \<and> (\<exists>text. receive_result t = Returns text \<and> text \<noteq> []
                    \<and> send_result t = Raises e)"
  proof -
    have st: "snd (notify ws (Returns ()) (quiet @ t # post) s)
        = (if e = WebSocketDisconnect then Returned else Raised e)"
      using first [OF quiet_passes [OF q] loop_body_raises [OF r]] .
    have "manager (fst (notify ws (Returns ()) (quiet @ t # post) s))
             = subscribe [] ws (manager s)
        \<and> ws \<in> manager (fst (notify ws (Returns ()) (quiet @ t # post) s)) []
        \<and> \<not> list_ex is_disconnect
              (added (trace s) (fst (notify ws (Returns ()) (quiet @ t # post) s)))"
      if other: "e \<noteq> WebSocketDisconnect"
    proof -
      from st other have raised: "snd (notify ws (Returns ()) (quiet @ t # post) s) = Raised e"
        by simp
      then have "snd (notify ws (Returns ()) (quiet @ t # post) s) \<noteq> Returned"
        by simp
      with calls [of "quiet @ t # post"] left [OF raised] show ?thesis
        by blast
    qed
    with st show ?thesis by blast
  qed
  from calls [of ticks] left [of ticks e] first running running_awaits awaits
  show ?thesis
    by (intro conjI impI) blast+
qed

theorem notify_disconnect_only_on_WebSocketDisconnect_witness:
  "snd (notify 1 (Returns ())
       [\<lparr>sleep_result = Returns (), receive_result = Returns ''ping'', send_result = Returns ()\<rparr>,
        \<lparr>sleep_result = Returns (), receive_result = Returns ''ping'',
          send_result = Raises (OtherException ''RuntimeError'')\<rparr>]
       \<lparr>manager = empty_registry, trace = []\<rparr>) = Raised (OtherException ''RuntimeError'')
   \<and> 1 \<in> manager (fst (notify 1 (Returns ())
       [\<lparr>sleep_result = Returns (), receive_result = Returns ''ping'', send_result = Returns ()\<rparr>,
        \<lparr>sleep_result = Returns (), receive_result = Returns ''ping'',
          send_result = Raises (OtherException ''RuntimeError'')\<rparr>]
       \<lparr>manager = empty_registry, trace = []\<rparr>)) []
   \<and> snd (notify 1 (Returns ())
       [\<lparr>sleep_result = Returns (), receive_result = Raises (OtherException ''KeyError''),
          send_result = Returns ()\<rparr>]
       \<lparr>manager = empty_registry, trace = []\<rparr>) = Raised (OtherException ''KeyError'')
   \<and> 1 \<in> manager (fst (notify 1 (Returns ())
       [\<lparr>sleep_result = Returns (), receive_result = Raises (OtherException ''KeyError''),
          send_result = Returns ()\<rparr>]
       \<lparr>manager = empty_registry, trace = []\<rparr>)) []
   \<and> snd (notify 1 (Returns ())
       [\<lparr>sleep_result = Returns (), receive_result = Returns '''', send_result = Returns ()\<rparr>,
        \<lparr>sleep_result = Raises (OtherException ''CancelledError''),
          receive_result = Returns ''ping'', send_result = Returns ()\<rparr>]
       \<lparr>manager = empty_registry, trace = []\<rparr>) = Raised (OtherException ''CancelledError'')
   \<and> 1 \<in> manager (fst (notify 1 (Returns ())
       [\<lparr>sleep_result = Returns (), receive_result = Returns '''', send_result = Returns ()\<rparr>,
        \<lparr>sleep_result = Raises (OtherException ''CancelledError''),
          receive_result = Returns ''ping'', send_result = Returns ()\<rparr>]
       \<lparr>manager = empty_registry, trace = []\<rparr>)) []
   \<and> snd (notify 1 (Returns ())
       [\<lparr>sleep_result = Returns (), receive_result = Returns ''ping'', send_result = Returns ()\<rparr>]
       \<lparr>manager = empty_registry, trace = []\<rparr>) = Running"
proof -
  define s where "s = \<lparr>manager = empty_registry, trace = []\<rparr>"
  define q where "q =
    \<lparr>sleep_result = Returns (), receive_result = Returns ''ping'', send_result = Returns ()\<rparr>"
  define q0 where "q0 =
    \<lparr>sleep_result = Returns (), receive_result = Returns '''', send_result = Returns ()\<rparr>"
  define tsend where "tsend =
    \<lparr>sleep_result = Returns (), receive_result = Returns ''ping'',
      send_result = Raises (OtherException ''RuntimeError'')\<rparr>"
  define trecv where "trecv =
    \<lparr>sleep_result = Returns (), receive_result = Raises (OtherException ''KeyError''),
      send_result = Returns ()\<rparr>"
  define tsleep where "tsleep =
    \<lparr>sleep_result = Raises (OtherException ''CancelledError''),
      receive_result = Returns ''ping'', send_result = Returns ()\<rparr>"
  have quiet: "\<forall>x\<in>set [q]. sleep_result x = Returns ()
      \<and> (\<exists>text. receive_result x = Returns text \<and> (text = [] \<or> send_result x = Returns ()))"
    by (simp add: q_def)
  have quiet0: "\<forall>x\<in>set [q0]. sleep_result x = Returns ()
      \<and> (\<exists>text. receive_result x = Returns text \<and> (text = [] \<or> send_result x = Returns ()))"
    by (simp add: q0_def)
  have none: "\<forall>x\<in>set ([]::tick list). sleep_result x = Returns ()
      \<and> (\<exists>text. receive_result x = Returns text \<and> (text = [] \<or> send_result x = Returns ()))"
    by simp
  have r1: "sleep_result tsend = Returns ()
      \<and> (\<exists>text. receive_result tsend = Returns text \<and> text \<noteq> []
            \<and> send_result tsend = Raises (OtherException ''RuntimeError''))"
    by (simp add: tsend_def)
  have r2: "sleep_result trecv = Returns ()
      \<and> receive_result trecv = Raises (OtherException ''KeyError'')"
    by (simp add: trecv_def)
  have r3: "sleep_result tsleep = Raises (OtherException ''CancelledError'')"
    by (simp add: tsleep_def)
  have a: "snd (notify 1 (Returns ()) ([q] @ tsend # []) s)
        = Raised (OtherException ''RuntimeError'')
      \<and> 1 \<in> manager (fst (notify 1 (Returns ()) ([q] @ tsend # []) s)) []"
    using notify_disconnect_only_on_WebSocketDisconnect
      [of "[q]" tsend "OtherException ''RuntimeError''" 1 "[]" s] quiet r1
    by (simp add: subscribe_def)
  have b: "snd (notify 1 (Returns ()) ([] @ trecv # []) s)
        = Raised (OtherException ''KeyError'')
      \<and> 1 \<in> manager (fst (notify 1 (Returns ()) ([] @ trecv # []) s)) []"
    using notify_disconnect_only_on_WebSocketDisconnect
      [of "[]" trecv "OtherException ''KeyError''" 1 "[]" s] none r2
    by (simp add: subscribe_def)
  have c: "snd (notify 1 (Returns ()) ([q0] @ tsleep # []) s)
        = Raised (OtherException ''CancelledError'')
      \<and> 1 \<in> manager (fst (notify 1 (Returns ()) ([q0] @ tsleep # []) s)) []"
    using notify_disconnect_only_on_WebSocketDisconnect
      [of "[q0]" tsleep "OtherException ''CancelledError''" 1 "[]" s] quiet0 r3
    by (simp add: subscribe_def)
  have d: "snd (notify 1 (Returns ()) [q] s) = Running"
    using notify_disconnect_only_on_WebSocketDisconnect [of "[q]" _ _ 1 _ s] quiet
    by blast
  from a b c d show ?thesis
    unfolding s_def q_def q0_def tsend_def trecv_def tsleep_def by simp
qed

text \<open>
  Claim C3, as stated, fails: an empty text frame is a text frame, and the handler sends
  nothing in reply to it, since \<^verbatim>\<open>if await websocket.receive_text():\<close> is false on the
  empty string. The calls of a run that receives one empty frame:
\<close>

theorem notify_empty_frame_counterexample:
  "trace (fst (notify 1 (Returns ())
       [\<lparr>sleep_result = Returns (), receive_result = Returns '''', send_result = Returns ()\<rparr>]
       \<lparr>manager = empty_registry, trace = []\<rparr>))
     = [Accept 1, Connect [] 1, Sleep (1 / 2), ReceiveText 1]"
  by (simp add: notify_def loop_body_def)

text \<open>
  Claim C3, amended. In a pass whose sleep returns and whose receive returns a text, the
  handler sends \<^verbatim>\<open>{"status": "healthy"}\<close> exactly when the text is not empty; it never
  sends anything else, or to another websocket. Every pass starts with a sleep of 0.5
  seconds and sleeps once. The calls of a run whose passes raise nothing are those of
  \<^verbatim>\<open>accept\<close> and \<^verbatim>\<open>connect\<close> followed by the calls of its passes, in order.
\<close>

theorem loop_body_reply:
  "(sleep_result t = Returns () \<and> receive_result t = Returns text \<longrightarrow>
      (SendJson ws [(''status'', ''healthy'')] \<in> set (fst (loop_body ws t)) \<longleftrightarrow> text \<noteq> []))
   \<and> (\<forall>w j. SendJson w j \<in> set (fst (loop_body ws t)) \<longrightarrow>
        w = ws \<and> j = [(''status'', ''healthy'')])
   \<and> (\<exists>acts. fst (loop_body ws t) = Sleep (1 / 2) # acts \<and> (\<forall>d. Sleep d \<notin> set acts))
   \<and> ((\<forall>q\<in>set quiet. snd (loop_body ws q) = None) \<longrightarrow>
        added (trace s) (fst (notify ws (Returns ()) quiet s))
          = Accept ws # Connect [] ws # concat (map (\<lambda>q. fst (loop_body ws q)) quiet))"
proof (intro conjI impI allI)
  assume "sleep_result t = Returns () \<and> receive_result t = Returns text"
  then show "SendJson ws [(''status'', ''healthy'')] \<in> set (fst (loop_body ws t)) \<longleftrightarrow> text \<noteq> []"
    by (simp add: loop_body_def split: awaited.splits)
next
  fix w j
  assume "SendJson w j \<in> set (fst (loop_body ws t))"
  then show "w = ws" and "j = [(''status'', ''healthy'')]"
    by (auto simp: loop_body_def split: awaited.splits if_splits)
next
  show "\<exists>acts. fst (loop_body ws t) = Sleep (1 / 2) # acts \<and> (\<forall>d. Sleep d \<notin> set acts)"
    by (simp add: loop_body_def split: awaited.splits)
next
  assume quiet: "\<forall>q\<in>set quiet. snd (loop_body ws q) = None"
  show "added (trace s) (fst (notify ws (Returns ()) quiet s))
          = Accept ws # Connect [] ws # concat (map (\<lambda>q. fst (loop_body ws q)) quiet)"
    using notify_loop_quiet [OF quiet, of "[]"]
    by (simp add: notify_accepted added_def)
qed

theorem loop_body_reply_witness:
  "SendJson 1 [(''status'', ''healthy'')] \<in> set (fst (loop_body 1
       \<lparr>sleep_result = Returns (), receive_result = Returns ''ping'', send_result = Returns ()\<rparr>))
   \<and> SendJson 1 [(''status'', ''healthy'')] \<notin> set (fst (loop_body 1
       \<lparr>sleep_result = Returns (), receive_result = Returns '''', send_result = Returns ()\<rparr>))
   \<and> SendJson 2 [(''status'', ''healthy'')] \<notin> set (fst (loop_body 1
       \<lparr>sleep_result = Returns (), receive_result = Returns ''ping'', send_result = Returns ()\<rparr>))
   \<and> added [] (fst (notify 1 (Returns ())
       [\<lparr>sleep_result = Returns (), receive_result = Returns ''ping'', send_result = Returns ()\<rparr>,
        \<lparr>sleep_result = Returns (), receive_result = Returns '''', send_result = Returns ()\<rparr>]
       \<lparr>manager = empty_registry, trace = []\<rparr>))
     = [Accept 1, Connect [] 1, Sleep (1 / 2), ReceiveText 1,
        SendJson 1 [(''status'', ''healthy'')], Sleep (1 / 2), ReceiveText 1]"
proof -
  define p where "p =
    \<lparr>sleep_result = Returns (), receive_result = Returns ''ping'', send_result = Returns ()\<rparr>"
  define e where "e =
    \<lparr>sleep_result = Returns (), receive_result = Returns '''', send_result = Returns ()\<rparr>"
  define s where "s = \<lparr>manager = empty_registry, trace = []\<rparr>"
  have bp: "loop_body 1 p
      = ([Sleep (1 / 2), ReceiveText 1, SendJson 1 [(''status'', ''healthy'')]], None)"
    by (simp add: p_def loop_body_def)
  have be: "loop_body 1 e = ([Sleep (1 / 2), ReceiveText 1], None)"
    by (simp add: e_def loop_body_def)
  have quiet: "\<forall>q\<in>set [p, e]. snd (loop_body 1 q) = None"
    using bp be by simp
  have a: "SendJson 1 [(''status'', ''healthy'')] \<in> set (fst (loop_body 1 p))"
    using loop_body_reply [of p "''ping''" 1] by (simp add: p_def)
  have b: "SendJson 1 [(''status'', ''healthy'')] \<notin> set (fst (loop_body 1 e))"
    using loop_body_reply [of e "''''" 1] by (simp add: e_def)
  have c: "SendJson 2 [(''status'', ''healthy'')] \<notin> set (fst (loop_body 1 p))"
    using loop_body_reply [of p "''ping''" 1] by (simp add: p_def loop_body_def)
  have d: "added [] (fst (notify 1 (Returns ()) [p, e] s))
     = [Accept 1, Connect [] 1, Sleep (1 / 2), ReceiveText 1,
        SendJson 1 [(''status'', ''healthy'')], Sleep (1 / 2), ReceiveText 1]"
    using loop_body_reply [of p "''ping''" 1 "[p, e]" s] quiet bp be
    by (simp add: s_def)
  from a b c d show ?thesis
    unfolding p_def e_def s_def by blast
qed

section \<open>Properties of the outbound queues\<close>

lemma publish_fold_queue:
  "queue (fold (publish r) evs sessions i)
     = queue (sessions i)
       @ take (capacity (sessions i) - length (queue (sessions i)))
           (filter (\<lambda>e. i \<in> matches r (fst e)) evs)
   \<and> capacity (fold (publish r) evs sessions i) = capacity (sessions i)"
proof (induction evs arbitrary: sessions)
  case Nil
  show ?case by simp
next
  case (Cons e evs)
  let ?c = "sessions i"
  show ?case
  proof (cases "i \<in> matches r (fst e)")
    case False
    then have "publish r e sessions i = ?c" by (simp add: publish_def)
    with Cons [of "publish r e sessions"] False show ?thesis by simp
  next
    case True
    show ?thesis
    proof (cases "length (queue ?c) < capacity ?c")
      case full: False
      with True have "publish r e sessions i = ?c" by (simp add: publish_def enqueue_def)
      with Cons [of "publish r e sessions"] True full show ?thesis by simp
    next
      case room: True
      with True have p: "publish r e sessions i = ?c\<lparr>queue := queue ?c @ [e]\<rparr>"
        by (simp add: publish_def enqueue_def)
      from room obtain k where k: "capacity ?c - length (queue ?c) = Suc k"
        by (metis Suc_diff_Suc)
      then have k': "capacity ?c - Suc (length (queue ?c)) = k" by simp
      from Cons [of "publish r e sessions"] True p k k' show ?thesis by simp
    qed
  qed
qed


text \<open>
  Claim C8. \<open>enqueue\<close> on a full queue returns false and leaves the session as it was; with
  room it appends the message and returns true. Publishing the events \<open>evs\<close> one after the
  other, all matched by session \<open>i\<close>: however many they are, the queue of \<open>i\<close> grows by at
  most its capacity and never beyond it, and a session with an empty queue of capacity
  \<open>K\<close> less than the number of events ends with exactly the first \<open>K\<close> of them. Another
  matched session \<open>j\<close> whose queue has room for all the events ends with all of them, in
  order, whatever happened to \<open>i\<close>.
\<close>

theorem publish_bounded_queue:
  "(capacity c \<le> length (queue c) \<longrightarrow> enqueue m c = (c, False))
   \<and> (length (queue c) < capacity c \<longrightarrow> enqueue m c = (c\<lparr>queue := queue c @ [m]\<rparr>, True))
   \<and> length (queue (fold (publish r) evs sessions i)) - length (queue (sessions i))
        \<le> capacity (sessions i)
   \<and> (length (queue (sessions i)) \<le> capacity (sessions i) \<longrightarrow>
        length (queue (fold (publish r) evs sessions i)) \<le> capacity (sessions i))
   \<and> ((\<forall>e\<in>set evs. i \<in> matches r (fst e)) \<and> queue (sessions i) = []
        \<and> capacity (sessions i) < length evs \<longrightarrow>
        queue (fold (publish r) evs sessions i) = take (capacity (sessions i)) evs
        \<and> length (queue (fold (publish r) evs sessions i)) = capacity (sessions i))
   \<and> ((\<forall>e\<in>set evs. j \<in> matches r (fst e))
        \<and> length (queue (sessions j)) + length evs \<le> capacity (sessions j) \<longrightarrow>
        queue (fold (publish r) evs sessions j) = queue (sessions j) @ evs)"
proof (intro conjI impI)
  show "enqueue m c = (c, False)" if "capacity c \<le> length (queue c)"
    using that by (simp add: enqueue_def)
  show "enqueue m c = (c\<lparr>queue := queue c @ [m]\<rparr>, True)" if "length (queue c) < capacity c"
    using that by (simp add: enqueue_def)
  show "length (queue (fold (publish r) evs sessions i)) - length (queue (sessions i))
        \<le> capacity (sessions i)"
    by (simp add: publish_fold_queue)
  show "length (queue (fold (publish r) evs sessions i)) \<le> capacity (sessions i)"
    if "length (queue (sessions i)) \<le> capacity (sessions i)"
    using that by (simp add: publish_fold_queue)
next
  assume h: "(\<forall>e\<in>set evs. i \<in> matches r (fst e)) \<and> queue (sessions i) = []
        \<and> capacity (sessions i) < length evs"
  then have all: "filter (\<lambda>e. i \<in> matches r (fst e)) evs = evs"
    by simp
  show "queue (fold (publish r) evs sessions i) = take (capacity (sessions i)) evs"
    using h by (simp add: publish_fold_queue all)
  show "length (queue (fold (publish r) evs sessions i)) = capacity (sessions i)"
    using h by (simp add: publish_fold_queue all)
next
  assume h: "(\<forall>e\<in>set evs. j \<in> matches r (fst e))
        \<and> length (queue (sessions j)) + length evs \<le> capacity (sessions j)"
  then have all: "filter (\<lambda>e. j \<in> matches r (fst e)) evs = evs"
    by simp
  from h have room: "length evs \<le> capacity (sessions j) - length (queue (sessions j))"
    by arith
  show "queue (fold (publish r) evs sessions j) = queue (sessions j) @ evs"
    using room by (simp add: publish_fold_queue all)
qed

theorem publish_bounded_queue_witness:
  "queue (fold (publish (subscribe [''spool''] 2 (subscribe [] 1 empty_registry)))
       [([''spool'', ''5''], ''a''), ([''spool'', ''6''], ''b'')]
       (\<lambda>i. if i = 1 then \<lparr>queue = [], capacity = 1\<rparr> else \<lparr>queue = [], capacity = 2\<rparr>) 1)
     = [([''spool'', ''5''], ''a'')]
   \<and> queue (fold (publish (subscribe [''spool''] 2 (subscribe [] 1 empty_registry)))
       [([''spool'', ''5''], ''a''), ([''spool'', ''6''], ''b'')]
       (\<lambda>i. if i = 1 then \<lparr>queue = [], capacity = 1\<rparr> else \<lparr>queue = [], capacity = 2\<rparr>) 2)
     = [([''spool'', ''5''], ''a''), ([''spool'', ''6''], ''b'')]
   \<and> enqueue ([], ''c'') \<lparr>queue = [([], ''a'')], capacity = 1\<rparr>
     = (\<lparr>queue = [([], ''a'')], capacity = 1\<rparr>, False)
   \<and> enqueue ([], ''c'') \<lparr>queue = [([], ''a'')], capacity = 2\<rparr>
     = (\<lparr>queue = [([], ''a''), ([], ''c'')], capacity = 2\<rparr>, True)"
proof -
  define c2 :: connection_session where "c2 = \<lparr>queue = [([], ''a'')], capacity = 2\<rparr>"
  have room: "length (queue c2) < capacity c2" by (simp add: c2_def)
  have g: "enqueue ([], ''c'') c2 = (c2\<lparr>queue := queue c2 @ [([], ''c'')]\<rparr>, True)"
    using publish_bounded_queue [of c2 "([], ''c'')"] room by blast
  have g': "enqueue ([], ''c'') \<lparr>queue = [([], ''a'')], capacity = 2\<rparr>
     = (\<lparr>queue = [([], ''a''), ([], ''c'')], capacity = 2\<rparr>, True)"
    using g by (simp add: c2_def)
  define r where "r = subscribe [''spool''] 2 (subscribe [] 1 empty_registry)"
  define evs :: "message list" where
    "evs = [([''spool'', ''5''], ''a''), ([''spool'', ''6''], ''b'')]"
  define sessions :: "session \<Rightarrow> connection_session" where
    "sessions = (\<lambda>i. if i = 1 then \<lparr>queue = [], capacity = 1\<rparr> else \<lparr>queue = [], capacity = 2\<rparr>)"
  define c :: connection_session where "c = \<lparr>queue = [([], ''a'')], capacity = 1\<rparr>"
  have m1: "\<forall>e\<in>set evs. 1 \<in> matches r (fst e)"
    by (simp add: evs_def r_def matches_def subscribe_def empty_registry_def)
  have m2: "\<forall>e\<in>set evs. 2 \<in> matches r (fst e)"
    by (simp add: evs_def r_def matches_def subscribe_def empty_registry_def)
  have s1: "queue (sessions 1) = []" "capacity (sessions 1) = 1"
    by (simp_all add: sessions_def)
  have s2: "queue (sessions 2) = []" "capacity (sessions 2) = 2"
    by (simp_all add: sessions_def)
  have n: "length evs = 2" by (simp add: evs_def)
  have full: "capacity c \<le> length (queue c)" by (simp add: c_def)
  note inst = publish_bounded_queue [of c "([], ''c'')" r evs sessions 1 2]
  have a: "queue (fold (publish r) evs sessions 1) = take 1 evs"
    using inst m1 s1 n by simp
  have b: "queue (fold (publish r) evs sessions 2) = evs"
    using inst m2 s2 n by simp
  have d: "enqueue ([], ''c'') c = (c, False)"
    using inst full by blast
  have t: "take 1 evs = [([''spool'', ''5''], ''a'')]" by (simp add: evs_def)
  from a b d t g' show ?thesis
    unfolding r_def evs_def sessions_def c_def by simp
qed

section \<open>Properties of the authentication middleware\<close>

lemma lower_header_name:
  "lower ''Authorization'' = ''authorization''" "lower ''authorization'' = ''authorization''"
  by code_simp+

lemma py_or_same: "py_or a a = a"
  by (simp add: py_or_def split: option.splits list.splits)

lemma auth_header_lookup:
  "py_or (headers_get hs ''Authorization'') (headers_get hs ''authorization'')
     = headers_get hs ''authorization''"
  by (simp add: headers_get_def lower_header_name py_or_same)

lemma is_ascii_str_partition:
  assumes "is_ascii s" and "str_partition sep s = (u, m, p)"
  shows "is_ascii u" and "is_ascii p"
proof -
  have all: "\<forall>c\<in>set s. of_char c < (128::nat)"
    using assms(1) by (simp add: is_ascii_def list_all_iff)
  have "set u \<subseteq> set s"
    using assms(2) by (auto simp: str_partition_def split: if_splits dest: set_takeWhileD)
  with all show "is_ascii u"
    by (auto simp: is_ascii_def list_all_iff)
  have "set p \<subseteq> set s"
  proof (cases "sep \<in> set s")
    case True
    then have "p = tl (dropWhile (\<lambda>c. c \<noteq> sep) s)"
      using assms(2) by (simp add: str_partition_def)
    then show ?thesis
      by (metis list.sel(2) list.set_sel(2) set_dropWhileD subsetI empty_iff list.set(1))
  next
    case False
    then show ?thesis using assms(2) by (simp add: str_partition_def)
  qed
  with all show "is_ascii p"
    by (auto simp: is_ascii_def list_all_iff)
qed

text \<open>
  With an ASCII username and password configured, \<^verbatim>\<open>compare_digest\<close> never raises (the
  decoded credentials are ASCII by construction), and the middleware has five outcomes: the
  four 401 responses and the call of the rest of the application.
\<close>

lemma decode_and_check_ascii_config:
  assumes "is_ascii (basic_auth_username cfg)" and "is_ascii (basic_auth_password cfg)"
  shows "decode_and_check_basic_auth_or_raise b64decode cfg token =
     (case Option.bind (b64decode token) decode_ascii of
        None \<Rightarrow> Inl (HTTPException 401 ''invalid token'')
      | Some credentials \<Rightarrow>
          (case str_partition CHR '':'' credentials of
             (username, _, password) \<Rightarrow>
               if username = basic_auth_username cfg \<and> password = basic_auth_password cfg
               then Inr ()
               else Inl (HTTPException 401 ''invalid username/password'')))"
proof (cases "Option.bind (b64decode token) decode_ascii")
  case None
  then show ?thesis by (simp add: decode_and_check_basic_auth_or_raise_def)
next
  case (Some credentials)
  then have ascii: "is_ascii credentials"
    by (auto simp: decode_ascii_def bind_eq_Some_conv split: if_splits)
  obtain u m p where part: "str_partition CHR '':'' credentials = (u, m, p)"
    by (cases "str_partition CHR '':'' credentials")
  from is_ascii_str_partition [OF ascii part] have "is_ascii u" "is_ascii p" .
  with assms Some part show ?thesis
    by (auto simp: decode_and_check_basic_auth_or_raise_def compare_digest_def)
qed

lemma check_auth_ascii_config:
  assumes "is_ascii (basic_auth_username cfg)" and "is_ascii (basic_auth_password cfg)"
  shows "check_auth b64decode cfg req call_next =
     (if \<not> basic_auth_activated cfg then Inr (call_next req)
      else
        (case headers_get (headers req) ''authorization'' of
           None \<Rightarrow> Inl (HTTPException 401 ''no auth given'')
         | Some header \<Rightarrow>
             (case get_authorization_scheme_param (Some header) of
                (auth_scheme, auth_token) \<Rightarrow>
                  if lower auth_scheme \<noteq> ''basic''
                  then Inl (HTTPException 401 ''invalid authentication method'')
                  else
                    (case Option.bind (b64decode auth_token) decode_ascii of
                       None \<Rightarrow> Inl (HTTPException 401 ''invalid token'')
                     | Some credentials \<Rightarrow>
                         (case str_partition CHR '':'' credentials of
                            (username, _, password) \<Rightarrow>
                              if username = basic_auth_username cfg
                                 \<and> password = basic_auth_password cfg
                              then Inr (call_next req)
                              else Inl (HTTPException 401 ''invalid username/password''))))))"
proof -
  have step: "check_auth b64decode cfg req call_next =
     (if \<not> basic_auth_activated cfg then Inr (call_next req)
      else if headers_get (headers req) ''authorization'' = None
        then Inl (HTTPException 401 ''no auth given'')
        else
          (case get_authorization_scheme_param (headers_get (headers req) ''authorization'') of
             (auth_scheme, auth_token) \<Rightarrow>
               if lower auth_scheme = ''basic'' then
                 (case decode_and_check_basic_auth_or_raise b64decode cfg auth_token of
                    Inl e \<Rightarrow> Inl e
                  | Inr _ \<Rightarrow> Inr (call_next req))
               else Inl (HTTPException 401 ''invalid authentication method'')))"
    by (simp add: check_auth_def auth_header_lookup Let_def)
  show ?thesis
  proof (cases "headers_get (headers req) ''authorization''")
    case None
    then show ?thesis by (simp add: step)
  next
    case (Some header)
    then show ?thesis
      by (simp add: step decode_and_check_ascii_config [OF assms]
          split: option.splits prod.splits)
  qed
qed

section \<open>Where the code leaves the specification\<close>

text \<open>
  Claim C7 does not hold of the handler. The only \<^verbatim>\<open>except\<close> clause is for
  \<^verbatim>\<open>WebSocketDisconnect\<close>; here \<^verbatim>\<open>receive_text\<close> raises another exception (a
  \<^verbatim>\<open>KeyError\<close>, as for a binary frame). The exception leaves the handler, so the session is
  over, and its registration at the root is still there: every later event topic matches
  it.
\<close>

theorem notify_raised_keeps_registration:
  "snd (notify 1 (Returns ())
       [\<lparr>sleep_result = Returns (), receive_result = Raises (OtherException ''KeyError''),
          send_result = Returns ()\<rparr>]
       \<lparr>manager = empty_registry, trace = []\<rparr>) = Raised (OtherException ''KeyError'')
   \<and> 1 \<in> matches (manager (fst (notify 1 (Returns ())
       [\<lparr>sleep_result = Returns (), receive_result = Raises (OtherException ''KeyError''),
          send_result = Returns ()\<rparr>]
       \<lparr>manager = empty_registry, trace = []\<rparr>))) [''spool'', ''5'']"
  by (simp add: notify_def loop_body_def except_clause_def connect_def subscribe_def
      matches_def)

text \<open>
  Claim C5 does not hold of the application. With basic auth activated, a request without
  an \<^verbatim>\<open>Authorization\<close> header is refused by \<^verbatim>\<open>check_auth\<close>; the same request as a
  websocket handshake is served by \<^verbatim>\<open>notify\<close>, which accepts it and registers it at the
  root.
\<close>

theorem websocket_handshake_not_authenticated:
  "check_auth (\<lambda>_. None)
       \<lparr>basic_auth_activated = True, basic_auth_username = ''admin'',
        basic_auth_password = ''secret''\<rparr>
       \<lparr>scope = Websocket, headers = []\<rparr> (\<lambda>_. ())
     = Inl (HTTPException 401 ''no auth given'')
   \<and> (case app (\<lambda>_. None)
         \<lparr>basic_auth_activated = True, basic_auth_username = ''admin'',
          basic_auth_password = ''secret''\<rparr>
         (\<lambda>_. ()) \<lparr>scope = Websocket, headers = []\<rparr> 1 (Returns ()) []
         \<lparr>manager = empty_registry, trace = []\<rparr> of
        HttpServed _ \<Rightarrow> False
      | WebsocketServed (s', st) \<Rightarrow> st = Running \<and> 1 \<in> matches (manager s') [])"
  by (simp add: check_auth_def headers_get_def py_or_def app_def notify_def connect_def
      subscribe_def matches_def)

text \<open>
  Claim C9 does not hold for every configuration. With a configured password that is not
  ASCII, \<^verbatim>\<open>secrets.compare_digest\<close> raises \<^verbatim>\<open>TypeError\<close> on it: a request with decodable
  Basic credentials that do not match gets that exception and not the 401 "invalid
  username/password". The token \<^verbatim>\<open>dTpw\<close> is the base64 of \<^verbatim>\<open>u:p\<close>.
\<close>

lemma lower_Basic: "lower ''Basic'' = ''basic''"
  by code_simp


theorem check_auth_non_ascii_password:
  "check_auth (\<lambda>s. if s = ''dTpw'' then Some ''u:p'' else None)
       \<lparr>basic_auth_activated = True, basic_auth_username = ''admin'',
        basic_auth_password = [CHR ''p'', CHR 0xE4]\<rparr>
       \<lparr>scope = Http, headers = [(''authorization'', ''Basic dTpw'')]\<rparr> (\<lambda>_. ())
     = Inl TypeError"
  by (simp add: check_auth_def headers_get_def py_or_def lower_Basic lower_header_name
      get_authorization_scheme_param_def str_partition_def
      decode_and_check_basic_auth_or_raise_def decode_ascii_def is_ascii_def
      compare_digest_def)

end
